theory Spec2Isabelle
  imports Complex_Main "HOL-Library.Multiset"
begin

section \<open>JavaScript values that cross the network boundary\<close>

text \<open>
  The component of \<^verbatim>\<open>src/Frontend/webpage/src/App.js\<close> stores what the backend
  sends without checking its shape, so response bodies and the state fields that hold
  them are untyped JSON values. A JSON number is the rational that the parsed double
  denotes (the model never computes with it beyond the test against zero and
  \<^verbatim>\<open>Math.round\<close>); an object is the list of its own properties.
\<close>

datatype json =
    JNull
  | JBool bool
  | JNum rat
  | JStr string
  | JArr "json list"
  | JObj "(string \<times> json) list"

text \<open>The result of \<^verbatim>\<open>parseInt\<close> and the content of the \<^verbatim>\<open>topN\<close> field.\<close>

datatype number = NaN | Num int

text \<open>JavaScript truthiness, as \<^verbatim>\<open>!x\<close>, \<^verbatim>\<open>x || y\<close> and \<^verbatim>\<open>x && y\<close> test it.\<close>

fun truthy :: "json \<Rightarrow> bool" where
  "truthy JNull = False"
| "truthy (JBool b) = b"
| "truthy (JNum r) = (r \<noteq> 0)"
| "truthy (JStr s) = (s \<noteq> [])"
| "truthy (JArr xs) = True"
| "truthy (JObj kvs) = True"

text \<open>\<^verbatim>\<open>v || d\<close>, where \<open>None\<close> is \<^verbatim>\<open>undefined\<close>.\<close>

fun or_else :: "json option \<Rightarrow> json \<Rightarrow> json" where
  "or_else None d = d"
| "or_else (Some v) d = (if truthy v then v else d)"

text \<open>
  The message of the TypeError raised by reading property \<open>p\<close> of \<^verbatim>\<open>null\<close>
  (the wording is V8's; other engines word it differently).
\<close>

definition read_null_message :: "string \<Rightarrow> string" where
  "read_null_message p =
     ''Cannot read properties of null (reading '' @ [CHR 0x27] @ p @ [CHR 0x27] @ '')''"

text \<open>
  \<^verbatim>\<open>data.p\<close> for a parsed JSON value and a property name that no prototype
  defines (\<^verbatim>\<open>error\<close>, \<^verbatim>\<open>userIds\<close>, \<^verbatim>\<open>movies\<close>, \<^verbatim>\<open>recommendations\<close>,
  \<^verbatim>\<open>movieId\<close>, \<^verbatim>\<open>title\<close>, \<^verbatim>\<open>genres\<close>, \<^verbatim>\<open>predictedRating\<close>): reading it
  from \<^verbatim>\<open>null\<close> throws (\<open>Inl\<close> the exception's message), an object gives its own
  property or \<^verbatim>\<open>undefined\<close>, every other value gives \<^verbatim>\<open>undefined\<close>.
\<close>

fun own_prop :: "json \<Rightarrow> string \<Rightarrow> json option" where
  "own_prop (JObj kvs) p = map_of kvs p"
| "own_prop JNull p = None"
| "own_prop (JBool b) p = None"
| "own_prop (JNum r) p = None"
| "own_prop (JStr s) p = None"
| "own_prop (JArr xs) p = None"

definition get_prop :: "json \<Rightarrow> string \<Rightarrow> string + json option" where
  "get_prop v p = (if v = JNull then Inl (read_null_message p) else Inr (own_prop v p))"

subsection \<open>\<^verbatim>\<open>parseInt\<close> with no radix argument\<close>

text \<open>
  Leading white space is skipped (the ASCII white space characters; strings are byte
  lists here), then an optional sign, then an optional \<^verbatim>\<open>0x\<close> prefix that selects
  radix 16, then the longest run of digits of the radix. No digit gives \<^verbatim>\<open>NaN\<close>.
  The integer is exact here; JavaScript rounds it to a double above \<open>2 ^ 53\<close> and
  gives \<^verbatim>\<open>Infinity\<close> beyond the range of doubles.
\<close>

definition is_space :: "char \<Rightarrow> bool" where
  "is_space c = (c \<in> set [CHR 0x09, CHR 0x0A, CHR 0x0B, CHR 0x0C, CHR 0x0D, CHR 0x20])"

definition digit_of :: "nat \<Rightarrow> char \<Rightarrow> nat option" where
  "digit_of radix c =
     (let n = (of_char c :: nat);
          d = (if 48 \<le> n \<and> n \<le> 57 then Some (n - 48)
               else if 97 \<le> n \<and> n \<le> 122 then Some (n - 87)
               else if 65 \<le> n \<and> n \<le> 90 then Some (n - 55)
               else None)
      in case d of None \<Rightarrow> None | Some v \<Rightarrow> if v < radix then Some v else None)"

fun digits_prefix :: "nat \<Rightarrow> string \<Rightarrow> nat list" where
  "digits_prefix radix [] = []"
| "digits_prefix radix (c # cs) =
     (case digit_of radix c of None \<Rightarrow> [] | Some v \<Rightarrow> v # digits_prefix radix cs)"

definition strip_sign :: "string \<Rightarrow> bool \<times> string" where
  "strip_sign s =
     (case s of
        [] \<Rightarrow> (False, s)
      | c # cs \<Rightarrow> if c = CHR ''-'' then (True, cs) else if c = CHR ''+'' then (False, cs) else (False, s))"

definition strip_prefix :: "string \<Rightarrow> nat \<times> string" where
  "strip_prefix s =
     (case s of
        c # x # cs \<Rightarrow> if c = CHR ''0'' \<and> (x = CHR ''x'' \<or> x = CHR ''X'') then (16, cs) else (10, s)
      | _ \<Rightarrow> (10, s))"

definition parseInt :: "string \<Rightarrow> number" where
  "parseInt str =
     (let (neg, s) = strip_sign (dropWhile is_space str);
          (radix, z) = strip_prefix s;
          ds = digits_prefix radix z;
          mathInt = foldl (\<lambda>acc d. acc * int radix + int d) 0 ds
      in if ds = [] then NaN else Num (if neg then - mathInt else mathInt))"

text \<open>How \<^verbatim>\<open>JSON.stringify\<close> writes a number: \<^verbatim>\<open>NaN\<close> becomes \<^verbatim>\<open>null\<close>.\<close>

fun stringify_number :: "number \<Rightarrow> json" where
  "stringify_number NaN = JNull"
| "stringify_number (Num n) = JNum (of_int n)"

section \<open>The state of the component\<close>

text \<open>One field for each \<^verbatim>\<open>useState\<close> of \<^verbatim>\<open>App\<close>, with the initial values of lines 7 to 16.\<close>

record state =
  activeTab :: string
  users :: json
  movies :: json
  selectedUser :: string
  selectedMovie :: string
  prediction :: json
  recommendations :: json
  topN :: number
  loading :: bool
  error :: json

definition App_init :: state where
  "App_init =
     \<lparr> activeTab = ''predict'', users = JArr [], movies = JArr [], selectedUser = [],
       selectedMovie = [], prediction = JNull, recommendations = JArr [], topN = Num 10,
       loading = False, error = JNull \<rparr>"

text \<open>
  A handler changes the state only through the setters, one call at a time. A handler is
  the list of its setter calls in program order; the state after the handler is the fold
  of the calls, and \<open>trace\<close> lists the state after each call, which covers every
  way React may batch them into renders.
\<close>

datatype setter =
    SetActiveTab string
  | SetUsers json
  | SetMovies json
  | SetSelectedUser string
  | SetSelectedMovie string
  | SetPrediction json
  | SetRecommendations json
  | SetTopN number
  | SetLoading bool
  | SetError json

fun apply_setter :: "state \<Rightarrow> setter \<Rightarrow> state" where
  "apply_setter s (SetActiveTab v) = s\<lparr>activeTab := v\<rparr>"
| "apply_setter s (SetUsers v) = s\<lparr>users := v\<rparr>"
| "apply_setter s (SetMovies v) = s\<lparr>movies := v\<rparr>"
| "apply_setter s (SetSelectedUser v) = s\<lparr>selectedUser := v\<rparr>"
| "apply_setter s (SetSelectedMovie v) = s\<lparr>selectedMovie := v\<rparr>"
| "apply_setter s (SetPrediction v) = s\<lparr>prediction := v\<rparr>"
| "apply_setter s (SetRecommendations v) = s\<lparr>recommendations := v\<rparr>"
| "apply_setter s (SetTopN v) = s\<lparr>topN := v\<rparr>"
| "apply_setter s (SetLoading v) = s\<lparr>loading := v\<rparr>"
| "apply_setter s (SetError v) = s\<lparr>error := v\<rparr>"

definition run :: "setter list \<Rightarrow> state \<Rightarrow> state" where
  "run calls s = foldl apply_setter s calls"

fun trace :: "setter list \<Rightarrow> state \<Rightarrow> state list" where
  "trace [] s = []"
| "trace (c # cs) s = apply_setter s c # trace cs (apply_setter s c)"

section \<open>Requests and their outcomes\<close>

record request =
  req_url :: string
  req_verb :: string
  req_headers :: "(string \<times> string) list"
  req_body :: "json option"

definition API_BASE_URL :: string where
  "API_BASE_URL = ''http://localhost:5000/api''"

definition get_request :: "string \<Rightarrow> request" where
  "get_request path =
     \<lparr> req_url = API_BASE_URL @ path, req_verb = ''GET'', req_headers = [], req_body = None \<rparr>"

definition post_request :: "string \<Rightarrow> json \<Rightarrow> request" where
  "post_request path payload =
     \<lparr> req_url = API_BASE_URL @ path, req_verb = ''POST'',
       req_headers = [(''Content-Type'', ''application/json'')], req_body = Some payload \<rparr>"

text \<open>
  What the two awaits of a handler (\<^verbatim>\<open>fetch\<close>, then \<^verbatim>\<open>response.json()\<close>) can
  produce: \<^verbatim>\<open>fetch\<close> rejects with an exception of the given message; or it resolves
  with \<^verbatim>\<open>response.ok\<close> as given and the body fails to parse, with the given message;
  or the body parses to the given value.
\<close>

datatype outcome =
    FetchRejected string
  | JsonRejected bool string
  | Parsed bool json


section \<open>The handlers\<close>

text \<open>
  An async handler runs in two parts: from the call up to its first \<^verbatim>\<open>await\<close>
  (the setter calls, and the request it issues if any), and from the settled awaits to
  its end (a function of the outcome alone, since the continuation reads no state).
\<close>

subsection \<open>\<^verbatim>\<open>fetchUsers\<close> and \<^verbatim>\<open>fetchMovies\<close> (lines 23 to 41)\<close>

definition fetchUsers :: "setter list \<times> request option" where
  "fetchUsers = ([], Some (get_request ''/users''))"

text \<open>
  The continuation gives the setter calls and the calls of \<^verbatim>\<open>console.error\<close>, each
  with its two arguments: the label and the exception, which is kept as its message.
  \<^verbatim>\<open>response.ok\<close> is not read.
\<close>

fun fetchUsers_try :: "outcome \<Rightarrow> string + setter list" where
  "fetchUsers_try (FetchRejected m) = Inl m"
| "fetchUsers_try (JsonRejected ok m) = Inl m"
| "fetchUsers_try (Parsed ok data) =
     (case get_prop data ''userIds'' of
        Inl m \<Rightarrow> Inl m
      | Inr v \<Rightarrow> Inr [SetUsers (or_else v (JArr []))])"

definition fetchUsers_resume :: "outcome \<Rightarrow> setter list \<times> (string \<times> string) list" where
  "fetchUsers_resume out =
     (case fetchUsers_try out of
        Inl m \<Rightarrow> ([], [(''Error fetching users:'', m)])
      | Inr calls \<Rightarrow> (calls, []))"

definition fetchMovies :: "setter list \<times> request option" where
  "fetchMovies = ([], Some (get_request ''/movies''))"

fun fetchMovies_try :: "outcome \<Rightarrow> string + setter list" where
  "fetchMovies_try (FetchRejected m) = Inl m"
| "fetchMovies_try (JsonRejected ok m) = Inl m"
| "fetchMovies_try (Parsed ok data) =
     (case get_prop data ''movies'' of
        Inl m \<Rightarrow> Inl m
      | Inr v \<Rightarrow> Inr [SetMovies (or_else v (JArr []))])"

definition fetchMovies_resume :: "outcome \<Rightarrow> setter list \<times> (string \<times> string) list" where
  "fetchMovies_resume out =
     (case fetchMovies_try out of
        Inl m \<Rightarrow> ([], [(''Error fetching movies:'', m)])
      | Inr calls \<Rightarrow> (calls, []))"

subsection \<open>\<^verbatim>\<open>handlePredict\<close> (lines 43 to 77)\<close>

definition handlePredict :: "state \<Rightarrow> setter list \<times> request option" where
  "handlePredict s =
     (if selectedUser s = [] \<or> selectedMovie s = [] then
        ([SetError (JStr ''Please select both user and movie'')], None)
      else
        ([SetLoading True, SetError JNull, SetPrediction JNull],
         Some (post_request ''/predict''
                 (JObj [(''userId'', stringify_number (parseInt (selectedUser s))),
                        (''movieId'', stringify_number (parseInt (selectedMovie s)))]))))"

text \<open>The \<^verbatim>\<open>try\<close> block after the request is sent: \<open>Inl\<close> is the message of what it throws.\<close>

fun handlePredict_try :: "outcome \<Rightarrow> string + setter list" where
  "handlePredict_try (FetchRejected m) = Inl m"
| "handlePredict_try (JsonRejected ok m) = Inl m"
| "handlePredict_try (Parsed ok data) =
     (if ok then Inr [SetPrediction data]
      else case get_prop data ''error'' of
             Inl m \<Rightarrow> Inl m
           | Inr v \<Rightarrow> Inr [SetError (or_else v (JStr ''Prediction failed''))])"

text \<open>\<^verbatim>\<open>catch\<close> and \<^verbatim>\<open>finally\<close>.\<close>

definition handlePredict_resume :: "outcome \<Rightarrow> setter list" where
  "handlePredict_resume out =
     (case handlePredict_try out of
        Inl m \<Rightarrow> [SetError (JStr (''Error connecting to server: '' @ m))]
      | Inr calls \<Rightarrow> calls) @ [SetLoading False]"

subsection \<open>\<^verbatim>\<open>handleRecommend\<close> (lines 79 to 113)\<close>

definition handleRecommend :: "state \<Rightarrow> setter list \<times> request option" where
  "handleRecommend s =
     (if selectedUser s = [] then
        ([SetError (JStr ''Please select a user'')], None)
      else
        ([SetLoading True, SetError JNull, SetRecommendations (JArr [])],
         Some (post_request ''/recommend''
                 (JObj [(''userId'', stringify_number (parseInt (selectedUser s))),
                        (''topN'', stringify_number (topN s))]))))"

fun handleRecommend_try :: "outcome \<Rightarrow> string + setter list" where
  "handleRecommend_try (FetchRejected m) = Inl m"
| "handleRecommend_try (JsonRejected ok m) = Inl m"
| "handleRecommend_try (Parsed ok data) =
     (if ok then
        (case get_prop data ''recommendations'' of
           Inl m \<Rightarrow> Inl m
         | Inr v \<Rightarrow> Inr [SetRecommendations (or_else v (JArr []))])
      else case get_prop data ''error'' of
             Inl m \<Rightarrow> Inl m
           | Inr v \<Rightarrow> Inr [SetError (or_else v (JStr ''Recommendation failed''))])"

definition handleRecommend_resume :: "outcome \<Rightarrow> setter list" where
  "handleRecommend_resume out =
     (case handleRecommend_try out of
        Inl m \<Rightarrow> [SetError (JStr (''Error connecting to server: '' @ m))]
      | Inr calls \<Rightarrow> calls) @ [SetLoading False]"

subsection \<open>The inline handlers of the controls\<close>

definition onClick_tab :: "string \<Rightarrow> setter list" where
  "onClick_tab name = [SetActiveTab name]"

definition onChange_user :: "string \<Rightarrow> setter list" where
  "onChange_user target_value = [SetSelectedUser target_value]"

definition onChange_movie :: "string \<Rightarrow> setter list" where
  "onChange_movie target_value = [SetSelectedMovie target_value]"

definition onChange_topN :: "string \<Rightarrow> setter list" where
  "onChange_topN target_value = [SetTopN (parseInt target_value)]"

section \<open>What \<^verbatim>\<open>App\<close> renders\<close>

text \<open>
  The parts of the element tree of lines 115 to 270 that the properties below are about.
  An exception raised while \<^verbatim>\<open>App\<close> computes the tree is a \<open>render_error\<close>;
  what React does with the tree afterwards (keys, children it refuses) is outside.
\<close>

datatype render_error = TypeError | RangeError

text \<open>\<^verbatim>\<open>xs.map(f)\<close> where \<open>f\<close> may throw: the first exception ends the loop.\<close>

fun traverse :: "('a \<Rightarrow> 'e + 'b) \<Rightarrow> 'a list \<Rightarrow> 'e + 'b list" where
  "traverse f [] = Inr []"
| "traverse f (x # xs) =
     (case f x of
        Inl e \<Rightarrow> Inl e
      | Inr y \<Rightarrow> (case traverse f xs of Inl e \<Rightarrow> Inl e | Inr ys \<Rightarrow> Inr (y # ys)))"

subsection \<open>The two buttons (lines 172 to 178 and 234 to 240)\<close>

record button =
  btn_disabled :: bool
  btn_label :: string

definition predict_button :: "state \<Rightarrow> button" where
  "predict_button s =
     \<lparr> btn_disabled = loading s,
       btn_label = (if loading s then ''Predicting...'' else ''Predict Rating'') \<rparr>"

definition recommend_button :: "state \<Rightarrow> button" where
  "recommend_button s =
     \<lparr> btn_disabled = loading s,
       btn_label = (if loading s then ''Generating...'' else ''Get Recommendations'') \<rparr>"

text \<open>\<^verbatim>\<open>{error && <div className="error-message">{error}</div>}\<close>\<close>

definition error_message :: "state \<Rightarrow> json option" where
  "error_message s = (if truthy (error s) then Some (error s) else None)"

subsection \<open>The options of the two selects (lines 149 to 153 and 163 to 169)\<close>

record select_option =
  opt_key :: "json option"
  opt_value :: "json option"
  opt_children :: "json option list"

definition placeholder :: "string \<Rightarrow> select_option" where
  "placeholder label = \<lparr> opt_key = None, opt_value = Some (JStr []), opt_children = [Some (JStr label)] \<rparr>"

definition user_option :: "json \<Rightarrow> select_option" where
  "user_option userId =
     \<lparr> opt_key = Some userId, opt_value = Some userId,
       opt_children = [Some (JStr ''User ''), Some userId] \<rparr>"

text \<open>
  \<^verbatim>\<open>users.slice(0, 100).map(...)\<close>: only an array has both a \<^verbatim>\<open>slice\<close> and a
  \<^verbatim>\<open>map\<close> to call, so any other value throws a TypeError.
\<close>

fun user_options :: "json \<Rightarrow> render_error + select_option list" where
  "user_options (JArr xs) = Inr (placeholder ''-- Choose User --'' # map user_option (take 100 xs))"
| "user_options JNull = Inl TypeError"
| "user_options (JBool b) = Inl TypeError"
| "user_options (JNum r) = Inl TypeError"
| "user_options (JStr s) = Inl TypeError"
| "user_options (JObj kvs) = Inl TypeError"



subsection \<open>The list of recommendations (lines 244 to 265)\<close>

text \<open>
  One card for each element. \<open>card_rating\<close> is the number that \<^verbatim>\<open>toFixed(2)\<close>
  prints and \<open>card_stars\<close> the count given to \<^verbatim>\<open>repeat\<close>, which is
  \<^verbatim>\<open>Math.round\<close> of the rating and must not be negative. Reading a property of
  a \<^verbatim>\<open>null\<close> element throws, and so does \<^verbatim>\<open>toFixed\<close> on anything but a
  number. The engine's limit on the length of a string is not modelled.
\<close>

record card =
  card_key :: "json option"
  card_rank :: nat
  card_title :: "json option"
  card_genres :: "json option"
  card_rating :: rat
  card_stars :: nat

definition Math_round :: "rat \<Rightarrow> int" where
  "Math_round r = \<lfloor>r + 1 / 2\<rfloor>"

definition render_card :: "nat \<Rightarrow> json \<Rightarrow> render_error + card" where
  "render_card index rec =
     (case get_prop rec ''movieId'' of
        Inl m \<Rightarrow> Inl TypeError
      | Inr k \<Rightarrow>
          (case own_prop rec ''predictedRating'' of
             Some (JNum r) \<Rightarrow>
               if Math_round r < 0 then Inl RangeError
               else Inr \<lparr> card_key = k, card_rank = index + 1,
                          card_title = own_prop rec ''title'', card_genres = own_prop rec ''genres'',
                          card_rating = r, card_stars = nat (Math_round r) \<rparr>
           | _ \<Rightarrow> Inl TypeError))"

record recommendations_list =
  heading_count :: nat
  cards :: "card list"

text \<open>
  For the \<^verbatim>\<open>recommendations\<close> field holding the array \<open>recs\<close>:
  \<^verbatim>\<open>recommendations.length > 0 && (...)\<close>, where \<open>None\<close> is nothing rendered.
\<close>

definition render_recommendations :: "json list \<Rightarrow> render_error + recommendations_list option" where
  "render_recommendations recs =
     (if length recs > 0 then
        (case traverse (\<lambda>(index, rec). render_card index rec) (enumerate 0 recs) of
           Inl e \<Rightarrow> Inl e
         | Inr cs \<Rightarrow> Inr (Some \<lparr> heading_count = length recs, cards = cs \<rparr>))
      else Inr None)"

section \<open>The component as a transition system\<close>

text \<open>
  JavaScript runs each handler part to completion, so the system moves in events: a user
  action on a control that is rendered and enabled, or the settling of one request that
  is in flight. Requests in flight are unordered; \<open>sent\<close> is the log of issued
  requests. A request may never settle. React renders the tree between two events, so
  a handler reads the state of the moment of its event, and a disabled button delivers
  no click. The strings a control can deliver are not restricted here, and user actions
  stay possible in a state whose tree cannot be rendered; both only add reachable
  states.
\<close>

datatype call = FetchUsers | FetchMovies | Predict | Recommend

record system =
  ui :: state
  pending :: "call multiset"
  sent :: "request list"

text \<open>After the first render and the effect of lines 18 to 21.\<close>

definition mounted :: system where
  "mounted =
     \<lparr> ui = App_init, pending = {#FetchUsers, FetchMovies#},
       sent = [get_request ''/users'', get_request ''/movies''] \<rparr>"

fun issue :: "call \<Rightarrow> setter list \<times> request option \<Rightarrow> system \<Rightarrow> system" where
  "issue k (calls, None) c = c\<lparr>ui := run calls (ui c)\<rparr>"
| "issue k (calls, Some r) c =
     c\<lparr>ui := run calls (ui c), pending := add_mset k (pending c), sent := sent c @ [r]\<rparr>"

fun resume :: "call \<Rightarrow> outcome \<Rightarrow> setter list" where
  "resume FetchUsers out = fst (fetchUsers_resume out)"
| "resume FetchMovies out = fst (fetchMovies_resume out)"
| "resume Predict out = handlePredict_resume out"
| "resume Recommend out = handleRecommend_resume out"

datatype event =
    ClickTab string
  | ChangeUser string
  | ChangeMovie string
  | ChangeTopN string
  | ClickPredict
  | ClickRecommend
  | Settle call outcome

text \<open>\<open>None\<close>: the event cannot happen in this state.\<close>

fun step :: "system \<Rightarrow> event \<Rightarrow> system option" where
  "step c (ClickTab name) =
     (if name = ''predict'' \<or> name = ''recommend''
      then Some (c\<lparr>ui := run (onClick_tab name) (ui c)\<rparr>) else None)"
| "step c (ChangeUser v) = Some (c\<lparr>ui := run (onChange_user v) (ui c)\<rparr>)"
| "step c (ChangeMovie v) =
     (if activeTab (ui c) = ''predict''
      then Some (c\<lparr>ui := run (onChange_movie v) (ui c)\<rparr>) else None)"
| "step c (ChangeTopN v) =
     (if activeTab (ui c) \<noteq> ''predict''
      then Some (c\<lparr>ui := run (onChange_topN v) (ui c)\<rparr>) else None)"
| "step c ClickPredict =
     (if activeTab (ui c) = ''predict'' \<and> \<not> btn_disabled (predict_button (ui c))
      then Some (issue Predict (handlePredict (ui c)) c) else None)"
| "step c ClickRecommend =
     (if activeTab (ui c) \<noteq> ''predict'' \<and> \<not> btn_disabled (recommend_button (ui c))
      then Some (issue Recommend (handleRecommend (ui c)) c) else None)"
| "step c (Settle k out) =
     (if k \<in># pending c
      then Some (c\<lparr>ui := run (resume k out) (ui c), pending := pending c - {#k#}\<rparr>) else None)"

inductive reachable :: "system \<Rightarrow> bool" where
  start: "reachable mounted"
| next_event: "reachable c \<Longrightarrow> step c e = Some c' \<Longrightarrow> reachable c'"

text \<open>The states a run of events goes through, for evaluation on concrete runs.\<close>

fun steps :: "system \<Rightarrow> event list \<Rightarrow> system option" where
  "steps c [] = Some c"
| "steps c (e # es) = (case step c e of None \<Rightarrow> None | Some c' \<Rightarrow> steps c' es)"

section \<open>Invariant of the reachable states\<close>

text \<open>
  At most one \<^verbatim>\<open>/predict\<close> or \<^verbatim>\<open>/recommend\<close> request is in flight, exactly when
  \<open>loading\<close> is set; while it is in flight its result field and \<open>error\<close> are
  cleared; each reference list is requested once and is empty until its request settles.
\<close>

definition inv :: "system \<Rightarrow> bool" where
  "inv c \<longleftrightarrow>
     count (pending c) Predict + count (pending c) Recommend = (if loading (ui c) then 1 else 0)
   \<and> (0 < count (pending c) Predict \<longrightarrow> prediction (ui c) = JNull \<and> error (ui c) = JNull)
   \<and> (0 < count (pending c) Recommend \<longrightarrow> recommendations (ui c) = JArr [] \<and> error (ui c) = JNull)
   \<and> count (pending c) FetchUsers \<le> 1
   \<and> (0 < count (pending c) FetchUsers \<longrightarrow> users (ui c) = JArr [])
   \<and> count (pending c) FetchMovies \<le> 1
   \<and> (0 < count (pending c) FetchMovies \<longrightarrow> movies (ui c) = JArr [])"

section \<open>Facts about the handlers and the invariant\<close>

lemmas handler_defs =
  run_def onClick_tab_def onChange_user_def onChange_movie_def onChange_topN_def
  handlePredict_def handleRecommend_def handlePredict_resume_def handleRecommend_resume_def
  fetchUsers_resume_def fetchMovies_resume_def predict_button_def recommend_button_def

lemma inv_mounted: "inv mounted"
  by (simp add: inv_def mounted_def App_init_def)

lemma run_handlePredict_resume:
  "\<exists>v. run (handlePredict_resume out) s = s\<lparr>prediction := v, loading := False\<rparr>
     \<or> run (handlePredict_resume out) s = s\<lparr>error := v, loading := False\<rparr>"
  by (cases out) (auto simp: handler_defs get_prop_def)

lemma run_handleRecommend_resume:
  "\<exists>v. run (handleRecommend_resume out) s = s\<lparr>recommendations := v, loading := False\<rparr>
     \<or> run (handleRecommend_resume out) s = s\<lparr>error := v, loading := False\<rparr>"
  by (cases out) (auto simp: handler_defs get_prop_def)

lemma run_fetchUsers_resume:
  "run (fst (fetchUsers_resume out)) s = s \<or> (\<exists>v. run (fst (fetchUsers_resume out)) s = s\<lparr>users := v\<rparr>)"
  by (cases out) (auto simp: handler_defs get_prop_def)

lemma run_fetchMovies_resume:
  "run (fst (fetchMovies_resume out)) s = s \<or> (\<exists>v. run (fst (fetchMovies_resume out)) s = s\<lparr>movies := v\<rparr>)"
  by (cases out) (auto simp: handler_defs get_prop_def)

lemmas count_iffs = count_greater_zero_iff count_greater_eq_Suc_zero_iff count_greater_eq_one_iff

lemma inv_Settle:
  assumes "inv c" and "step c (Settle k out) = Some c'"
  shows "inv c'"
proof -
  from assms(2) have "k \<in># pending c"
    and c': "c' = c\<lparr>ui := run (resume k out) (ui c), pending := pending c - {#k#}\<rparr>"
    by (auto split: if_splits)
  then have k: "1 \<le> count (pending c) k"
    by simp
  show ?thesis
  proof (cases k)
    case FetchUsers
    with run_fetchUsers_resume[of out "ui c"] assms(1) k show ?thesis
      unfolding c' inv_def by (auto simp del: count_iffs)
  next
    case FetchMovies
    with run_fetchMovies_resume[of out "ui c"] assms(1) k show ?thesis
      unfolding c' inv_def by (auto simp del: count_iffs)
  next
    case Predict
    with run_handlePredict_resume[of out "ui c"] assms(1) k show ?thesis
      unfolding c' inv_def by (auto simp del: count_iffs split: if_splits)
  next
    case Recommend
    with run_handleRecommend_resume[of out "ui c"] assms(1) k show ?thesis
      unfolding c' inv_def by (auto simp del: count_iffs split: if_splits)
  qed
qed


lemma step_passive:
  assumes "step c e = Some c'" and "e = ClickTab n \<or> e = ChangeUser n \<or> e = ChangeMovie n \<or> e = ChangeTopN n"
  shows "pending c' = pending c \<and> sent c' = sent c \<and> loading (ui c') = loading (ui c)
     \<and> error (ui c') = error (ui c) \<and> prediction (ui c') = prediction (ui c)
     \<and> recommendations (ui c') = recommendations (ui c)
     \<and> users (ui c') = users (ui c) \<and> movies (ui c') = movies (ui c)"
  using assms by (elim disjE) (simp_all add: handler_defs split: if_splits, auto)

lemma inv_passive:
  assumes "inv c" and "step c e = Some c'" and "e = ClickTab n \<or> e = ChangeUser n \<or> e = ChangeMovie n \<or> e = ChangeTopN n"
  shows "inv c'"
  using assms(1) step_passive[OF assms(2,3)] unfolding inv_def by simp

lemma step_ClickPredict:
  assumes "step c ClickPredict = Some c'"
  shows "\<not> loading (ui c)"
    and "users (ui c') = users (ui c) \<and> movies (ui c') = movies (ui c)
       \<and> recommendations (ui c') = recommendations (ui c)"
    and "(pending c' = pending c \<and> sent c' = sent c \<and> \<not> loading (ui c'))
       \<or> (pending c' = add_mset Predict (pending c) \<and> loading (ui c')
          \<and> error (ui c') = JNull \<and> prediction (ui c') = JNull)"
  using assms by (auto simp add: handler_defs split: if_splits)

lemma step_ClickRecommend:
  assumes "step c ClickRecommend = Some c'"
  shows "\<not> loading (ui c)"
    and "users (ui c') = users (ui c) \<and> movies (ui c') = movies (ui c)
       \<and> prediction (ui c') = prediction (ui c)"
    and "(pending c' = pending c \<and> sent c' = sent c \<and> \<not> loading (ui c'))
       \<or> (pending c' = add_mset Recommend (pending c) \<and> loading (ui c')
          \<and> error (ui c') = JNull \<and> recommendations (ui c') = JArr [])"
  using assms by (auto simp add: handler_defs split: if_splits)

lemma inv_idle:
  assumes "inv c" and "\<not> loading (ui c)"
  shows "count (pending c) Predict = 0" and "count (pending c) Recommend = 0"
  using assms unfolding inv_def by simp_all

lemma inv_ClickPredict:
  assumes "inv c" and "step c ClickPredict = Some c'"
  shows "inv c'"
proof -
  note s = step_ClickPredict[OF assms(2)]
  note z = inv_idle[OF assms(1) s(1)]
  from s(3) show ?thesis
  proof
    assume "pending c' = pending c \<and> sent c' = sent c \<and> \<not> loading (ui c')"
    with assms(1) s(2) z show ?thesis
      unfolding inv_def by (simp del: count_iffs)
  next
    assume "pending c' = add_mset Predict (pending c) \<and> loading (ui c')
          \<and> error (ui c') = JNull \<and> prediction (ui c') = JNull"
    with assms(1) s(2) z show ?thesis
      unfolding inv_def by (simp del: count_iffs)
  qed
qed

lemma inv_ClickRecommend:
  assumes "inv c" and "step c ClickRecommend = Some c'"
  shows "inv c'"
proof -
  note s = step_ClickRecommend[OF assms(2)]
  note z = inv_idle[OF assms(1) s(1)]
  from s(3) show ?thesis
  proof
    assume "pending c' = pending c \<and> sent c' = sent c \<and> \<not> loading (ui c')"
    with assms(1) s(2) z show ?thesis
      unfolding inv_def by (simp del: count_iffs)
  next
    assume "pending c' = add_mset Recommend (pending c) \<and> loading (ui c')
          \<and> error (ui c') = JNull \<and> recommendations (ui c') = JArr []"
    with assms(1) s(2) z show ?thesis
      unfolding inv_def by (simp del: count_iffs)
  qed
qed

lemma inv_step:
  assumes "inv c" and "step c e = Some c'"
  shows "inv c'"
  using assms inv_Settle inv_passive inv_ClickPredict inv_ClickRecommend
  by (cases e) blast+

lemma reachable_inv: "reachable c \<Longrightarrow> inv c"
  by (induction rule: reachable.induct) (auto intro: inv_mounted inv_step)


lemma steps_reachable: "reachable c \<Longrightarrow> steps c es = Some c' \<Longrightarrow> reachable c'"
  by (induction es arbitrary: c) (auto split: option.splits intro: reachable.next_event)

lemmas eval_defs = handler_defs mounted_def App_init_def get_prop_def
  post_request_def get_request_def API_BASE_URL_def

lemma Settle_Some:
  assumes "step c (Settle k out) = Some c'"
  shows "k \<in># pending c" and "ui c' = run (resume k out) (ui c)"
    and "pending c' = pending c - {#k#}" and "sent c' = sent c"
  using assms by (auto split: if_splits)

lemma inv_Predict_pending:
  assumes "reachable c" and "Predict \<in># pending c"
  shows "prediction (ui c) = JNull" and "error (ui c) = JNull" and "loading (ui c)"
    and "count (pending c) Predict = 1" and "count (pending c) Recommend = 0"
proof -
  have i: "inv c" using assms(1) by (rule reachable_inv)
  have p: "0 < count (pending c) Predict" using assms(2) by simp
  from i p show "prediction (ui c) = JNull" and "error (ui c) = JNull"
    unfolding inv_def by blast+
  from i p show "loading (ui c)" and "count (pending c) Predict = 1"
    and "count (pending c) Recommend = 0"
    unfolding inv_def by (simp_all del: count_iffs split: if_splits)
qed

lemma inv_Fetch_pending:
  assumes "reachable c"
  shows "FetchUsers \<in># pending c \<Longrightarrow> users (ui c) = JArr []"
    and "FetchMovies \<in># pending c \<Longrightarrow> movies (ui c) = JArr []"
  using reachable_inv[OF assms] unfolding inv_def by simp_all

section \<open>Facts about rendering\<close>

lemma traverse_Inr:
  "traverse f xs = Inr ys \<Longrightarrow> length ys = length xs \<and> (\<forall>i<length xs. f (xs ! i) = Inr (ys ! i))"
proof (induction xs arbitrary: ys)
  case Nil
  then show ?case by simp
next
  case (Cons x xs)
  then obtain y ys' where y: "f x = Inr y" and t: "traverse f xs = Inr ys'" and ys: "ys = y # ys'"
    by (auto split: sum.splits)
  from Cons.IH[OF t] y ys show ?case
    by (auto simp: nth_Cons split: nat.splits)
qed


lemma render_card_Inr:
  assumes "render_card k rec = Inr cd"
  shows "card_rank cd = k + 1" and "card_title cd = own_prop rec ''title''"
    and "card_key cd = own_prop rec ''movieId''" and "card_genres cd = own_prop rec ''genres''"
    and "own_prop rec ''predictedRating'' = Some (JNum (card_rating cd))"
    and "int (card_stars cd) = Math_round (card_rating cd)"
  using assms
  by (auto simp add: render_card_def get_prop_def
           split: sum.splits option.splits json.splits if_splits)


section \<open>What \<^verbatim>\<open>handleRecommend\<close> sends as \<^verbatim>\<open>topN\<close>\<close>

text \<open>
  C1, as the code has it. When a user is selected, \<^verbatim>\<open>handleRecommend\<close> issues a
  request whose body carries under \<^verbatim>\<open>topN\<close> the \<open>topN\<close> field of the state as it
  is stored, written as JSON; the handler neither validates nor clamps it. So the value
  sent lies in the range from 1 to 50 whenever the stored value does.
\<close>

theorem C1_topN_sent_as_stored:
  assumes "selectedUser s \<noteq> []"
  shows "\<exists>r payload. snd (handleRecommend s) = Some r \<and> req_body r = Some payload
     \<and> own_prop payload ''topN'' = Some (stringify_number (topN s))
     \<and> (\<forall>n. topN s = Num n \<and> 1 \<le> n \<and> n \<le> 50 \<longrightarrow>
           (\<exists>q. own_prop payload ''topN'' = Some (JNum q) \<and> 1 \<le> q \<and> q \<le> 50))"
  using assms by (auto simp add: handleRecommend_def post_request_def)

theorem C1_topN_sent_as_stored_witness:
  "selectedUser (App_init\<lparr>selectedUser := ''7''\<rparr>) \<noteq> []
   \<and> (case snd (handleRecommend (App_init\<lparr>selectedUser := ''7''\<rparr>)) of
         None \<Rightarrow> False
       | Some r \<Rightarrow> map_option (\<lambda>b. own_prop b ''topN'') (req_body r) = Some (Some (JNum 10)))"
proof -
  let ?s = "App_init\<lparr>selectedUser := ''7''\<rparr>"
  have h: "selectedUser ?s \<noteq> []"
    by simp
  from C1_topN_sent_as_stored[OF h] obtain r payload where
    r: "snd (handleRecommend ?s) = Some r" and b: "req_body r = Some payload"
    and t: "own_prop payload ''topN'' = Some (stringify_number (topN ?s))"
    by blast
  from t have "own_prop payload ''topN'' = Some (JNum 10)"
    by (simp add: App_init_def)
  with h r b show ?thesis
    by simp
qed

text \<open>
  The range is only declared on the input element (\<^verbatim>\<open>min="1" max="50"\<close>, lines 228
  and 229); its \<^verbatim>\<open>onChange\<close> stores \<^verbatim>\<open>parseInt\<close> of whatever text the input holds.
  After the text \<^verbatim>\<open>100\<close> is entered the request carries 100, and after the input is
  emptied it carries \<^verbatim>\<open>null\<close> (\<^verbatim>\<open>NaN\<close> written as JSON).
\<close>

theorem C1_counterexample:
  "map_option (\<lambda>c. map_option (\<lambda>b. own_prop b ''topN'') (req_body (last (sent c))))
     (steps mounted [ClickTab ''recommend'', ChangeTopN ''100'', ChangeUser ''1'', ClickRecommend])
     = Some (Some (Some (JNum 100)))
   \<and> \<not> (100 :: rat) \<le> 50
   \<and> map_option (\<lambda>c. map_option (\<lambda>b. own_prop b ''topN'') (req_body (last (sent c))))
     (steps mounted [ClickTab ''recommend'', ChangeTopN [], ChangeUser ''1'', ClickRecommend])
     = Some (Some (Some JNull))"
  by (simp add: eval_defs parseInt_def strip_sign_def strip_prefix_def is_space_def digit_of_def)

section \<open>Validation before a prediction request\<close>

text \<open>
  C2. When no user or no movie is selected, \<^verbatim>\<open>handlePredict\<close> issues no request and
  makes one setter call, which stores the validation message in \<open>error\<close>: the state
  after it differs from the state before in that field only, and the requests in flight
  and the log of sent requests are as before.
\<close>

theorem C2_predict_validation:
  assumes "selectedUser (ui c) = [] \<or> selectedMovie (ui c) = []"
  shows "snd (handlePredict (ui c)) = None
     \<and> run (fst (handlePredict (ui c))) (ui c)
         = (ui c)\<lparr>error := JStr ''Please select both user and movie''\<rparr>
     \<and> trace (fst (handlePredict (ui c))) (ui c)
         = [(ui c)\<lparr>error := JStr ''Please select both user and movie''\<rparr>]
     \<and> issue Predict (handlePredict (ui c)) c
         = c\<lparr>ui := (ui c)\<lparr>error := JStr ''Please select both user and movie''\<rparr>\<rparr>"
  using assms by (auto simp add: handlePredict_def run_def)

theorem C2_predict_validation_witness:
  "(selectedUser (ui mounted) = [] \<or> selectedMovie (ui mounted) = [])
   \<and> snd (handlePredict (ui mounted)) = None
   \<and> error (run (fst (handlePredict (ui mounted))) (ui mounted))
       = JStr ''Please select both user and movie''
   \<and> sent (issue Predict (handlePredict (ui mounted)) mounted) = sent mounted
   \<and> pending (issue Predict (handlePredict (ui mounted)) mounted) = pending mounted"
proof -
  have h: "selectedUser (ui mounted) = [] \<or> selectedMovie (ui mounted) = []"
    by (simp add: mounted_def App_init_def)
  from C2_predict_validation[OF h] h show ?thesis
    by simp
qed

section \<open>A prediction request that succeeds\<close>

text \<open>
  C3. When the prediction request in flight settles with \<^verbatim>\<open>response.ok\<close> and a body
  that parses to \<open>data\<close>, the resulting state holds \<open>data\<close> as the prediction and
  \<^verbatim>\<open>null\<close> as the error, and loading is cleared. The earlier prediction and error
  were cleared when the request was issued and stay cleared while it is in flight, so the
  state the response meets holds neither; the continuation makes two setter calls, and in
  the state after each of them the prediction is \<open>data\<close> and the error is \<^verbatim>\<open>null\<close>.
\<close>

theorem C3_predict_success:
  assumes "reachable c" and "step c (Settle Predict (Parsed True data)) = Some c'"
  shows "prediction (ui c') = data \<and> error (ui c') = JNull \<and> \<not> loading (ui c')
     \<and> prediction (ui c) = JNull \<and> error (ui c) = JNull
     \<and> trace (resume Predict (Parsed True data)) (ui c)
         = [(ui c)\<lparr>prediction := data\<rparr>, (ui c)\<lparr>prediction := data, loading := False\<rparr>]
     \<and> ui c' = (ui c)\<lparr>prediction := data, loading := False\<rparr>"
proof -
  note s = Settle_Some[OF assms(2)]
  note p = inv_Predict_pending[OF assms(1) s(1)]
  have u: "ui c' = (ui c)\<lparr>prediction := data, loading := False\<rparr>"
    using s(2) by (simp add: handlePredict_resume_def run_def)
  have t: "trace (resume Predict (Parsed True data)) (ui c)
         = [(ui c)\<lparr>prediction := data\<rparr>, (ui c)\<lparr>prediction := data, loading := False\<rparr>]"
    by (simp add: handlePredict_resume_def)
  from u p(1,2) t show ?thesis by simp
qed

theorem C3_predict_success_witness:
  "(case steps mounted [ClickPredict, ChangeUser ''1'', ChangeMovie ''10'', ClickPredict] of
      None \<Rightarrow> False
    | Some c \<Rightarrow>
        reachable c
      \<and> (case step c (Settle Predict (Parsed True
                  (JObj [(''userId'', JNum 1), (''movieTitle'', JStr ''Heat''),
                         (''genres'', JStr ''Crime''), (''predictedRating'', JNum (21 / 5))]))) of
            None \<Rightarrow> False
          | Some c' \<Rightarrow>
              prediction (ui c') =
                JObj [(''userId'', JNum 1), (''movieTitle'', JStr ''Heat''),
                      (''genres'', JStr ''Crime''), (''predictedRating'', JNum (21 / 5))]
            \<and> error (ui c') = JNull \<and> \<not> loading (ui c')))
   \<and> map_option (error \<circ> ui) (steps mounted [ClickPredict, ChangeUser ''1'', ChangeMovie ''10''])
       = Some (JStr ''Please select both user and movie'')"
proof -
  let ?data = "JObj [(''userId'', JNum 1), (''movieTitle'', JStr ''Heat''),
                     (''genres'', JStr ''Crime''), (''predictedRating'', JNum (21 / 5))]"
  obtain c where s: "steps mounted [ClickPredict, ChangeUser ''1'', ChangeMovie ''10'', ClickPredict] = Some c"
    by (simp add: eval_defs)
  have r: "reachable c"
    using reachable.start s by (rule steps_reachable)
  have p: "Predict \<in># pending c"
    using s by (auto simp add: eval_defs)
  obtain c' where s': "step c (Settle Predict (Parsed True ?data)) = Some c'"
    using p by simp
  from C3_predict_success[OF r s']
  have t: "prediction (ui c') = ?data \<and> error (ui c') = JNull \<and> \<not> loading (ui c')"
    by blast
  have b: "map_option (error \<circ> ui) (steps mounted [ClickPredict, ChangeUser ''1'', ChangeMovie ''10''])
       = Some (JStr ''Please select both user and movie'')"
    by (simp add: eval_defs)
  show ?thesis
    unfolding s option.case s' using r t b by blast
qed

section \<open>A prediction request that fails\<close>

text \<open>
  C4, as the code has it. When the prediction request in flight settles in any way other
  than \<^verbatim>\<open>response.ok\<close> with a parsed body, the resulting state has no prediction,
  loading is cleared, and \<open>error\<close> holds a truthy value, which is displayed:
  \<^item> \<^verbatim>\<open>Error connecting to server: \<close> followed by the exception's message when
    \<^verbatim>\<open>fetch\<close> rejects, when the body does not parse, or when the body is \<^verbatim>\<open>null\<close>;
  \<^item> the \<^verbatim>\<open>error\<close> property of the body, unchanged, when the response is not ok
    and that property is truthy (a non-empty string, under the backend's contract);
  \<^item> the fixed text \<^verbatim>\<open>Prediction failed\<close> when the response is not ok and the body
    has no \<^verbatim>\<open>error\<close> property or a falsy one.
\<close>

theorem C4_predict_failure:
  assumes "reachable c" and "step c (Settle Predict out) = Some c'"
    and "\<forall>data. out \<noteq> Parsed True data"
  shows "prediction (ui c') = JNull \<and> \<not> loading (ui c')
     \<and> error (ui c') =
         (case out of
            FetchRejected m \<Rightarrow> JStr (''Error connecting to server: '' @ m)
          | JsonRejected ok m \<Rightarrow> JStr (''Error connecting to server: '' @ m)
          | Parsed ok data \<Rightarrow>
              if data = JNull
              then JStr (''Error connecting to server: '' @ read_null_message ''error'')
              else (case own_prop data ''error'' of
                      None \<Rightarrow> JStr ''Prediction failed''
                    | Some v \<Rightarrow> if truthy v then v else JStr ''Prediction failed''))
     \<and> error_message (ui c') = Some (error (ui c'))"
proof -
  note s = Settle_Some[OF assms(2)]
  note p = inv_Predict_pending[OF assms(1) s(1)]
  show ?thesis
  proof (cases out)
    case (FetchRejected m)
    with s(2) p(1) show ?thesis
      by (simp add: handlePredict_resume_def run_def error_message_def)
  next
    case (JsonRejected ok m)
    with s(2) p(1) show ?thesis
      by (simp add: handlePredict_resume_def run_def error_message_def)
  next
    case (Parsed ok data)
    with assms(3) have "\<not> ok" by auto
    with Parsed s(2) p(1) show ?thesis
      by (cases "own_prop data ''error''")
         (simp_all add: handlePredict_resume_def run_def error_message_def get_prop_def)
  qed
qed

theorem C4_predict_failure_witness:
  "(case steps mounted [ChangeUser ''1'', ChangeMovie ''10'', ClickPredict] of
      None \<Rightarrow> False
    | Some c \<Rightarrow>
        reachable c
      \<and> (case step c (Settle Predict (Parsed False (JObj [(''error'', JStr ''user not found'')]))) of
            None \<Rightarrow> False
          | Some c' \<Rightarrow>
              prediction (ui c') = JNull \<and> error (ui c') = JStr ''user not found''
            \<and> \<not> loading (ui c')))"
proof -
  let ?out = "Parsed False (JObj [(''error'', JStr ''user not found'')])"
  obtain c where s: "steps mounted [ChangeUser ''1'', ChangeMovie ''10'', ClickPredict] = Some c"
    by (simp add: eval_defs)
  have r: "reachable c"
    using reachable.start s by (rule steps_reachable)
  have p: "Predict \<in># pending c"
    using s by (auto simp add: eval_defs)
  obtain c' where s': "step c (Settle Predict ?out) = Some c'"
    using p by simp
  have n: "\<forall>data. ?out \<noteq> Parsed True data"
    by simp
  from C4_predict_failure[OF r s' n]
  have t: "prediction (ui c') = JNull \<and> error (ui c') = JStr ''user not found'' \<and> \<not> loading (ui c')"
    by simp
  show ?thesis
    unfolding s option.case s' using r t by blast
qed

text \<open>
  A response that is not ok and whose \<^verbatim>\<open>error\<close> message is the empty string, or whose
  body reports the error under another name, is displayed as \<^verbatim>\<open>Prediction failed\<close>:
  neither the body's message nor a message with the prefix of a transport error.
\<close>

theorem C4_counterexample:
  "map_option (error \<circ> ui)
     (steps mounted [ChangeUser ''1'', ChangeMovie ''10'', ClickPredict,
                     Settle Predict (Parsed False (JObj [(''error'', JStr [])]))])
     = Some (JStr ''Prediction failed'')
   \<and> own_prop (JObj [(''error'', JStr [])]) ''error'' = Some (JStr [])
   \<and> JStr ''Prediction failed'' \<noteq> JStr []
   \<and> map_option (error \<circ> ui)
     (steps mounted [ChangeUser ''1'', ChangeMovie ''10'', ClickPredict,
                     Settle Predict (Parsed False (JObj [(''message'', JStr ''Internal Server Error'')]))])
     = Some (JStr ''Prediction failed'')"
  by (simp add: eval_defs)

section \<open>The order of the rendered recommendations\<close>

text \<open>
  C5. When the list of recommendations renders, there is one card for each element of
  the stored array, in the array's order: the card at position \<open>k\<close> (counted from 0)
  is the rendering of the element at index \<open>k\<close>, it shows the rank \<open>k + 1\<close> and
  that element's title and key, and the heading shows the length of the array. Nothing is
  rendered exactly when the array is empty.
\<close>

theorem C5_rank_is_index_plus_one:
  assumes "render_recommendations recs = Inr v"
  shows "case v of
           None \<Rightarrow> recs = []
         | Some l \<Rightarrow>
             recs \<noteq> [] \<and> heading_count l = length recs \<and> length (cards l) = length recs
           \<and> (\<forall>k<length recs. render_card k (recs ! k) = Inr (cards l ! k)
                  \<and> card_rank (cards l ! k) = k + 1
                  \<and> card_title (cards l ! k) = own_prop (recs ! k) ''title''
                  \<and> card_key (cards l ! k) = own_prop (recs ! k) ''movieId'')"
proof (cases recs)
  case Nil
  with assms show ?thesis by (simp add: render_recommendations_def)
next
  case (Cons r rs)
  with assms obtain cs where
    t: "traverse (\<lambda>(index, rec). render_card index rec) (enumerate 0 recs) = Inr cs"
    and v: "v = Some \<lparr> heading_count = length recs, cards = cs \<rparr>"
    by (auto simp add: render_recommendations_def split: sum.splits)
  from traverse_Inr[OF t] have len: "length cs = length recs"
    and nth: "\<And>k. k < length recs \<Longrightarrow> render_card k (recs ! k) = Inr (cs ! k)"
    by (auto simp add: nth_enumerate_eq)
  have "card_rank (cs ! k) = k + 1 \<and> card_title (cs ! k) = own_prop (recs ! k) ''title''
      \<and> card_key (cs ! k) = own_prop (recs ! k) ''movieId''" if "k < length recs" for k
    using render_card_Inr[OF nth[OF that]] by simp
  with len nth v Cons show ?thesis by simp
qed

theorem C5_rank_is_index_plus_one_witness:
  "(case render_recommendations
           [JObj [(''movieId'', JNum 3), (''title'', JStr ''Heat''), (''genres'', JStr ''Crime''),
                  (''predictedRating'', JNum (21 / 5))],
            JObj [(''movieId'', JNum 9), (''title'', JStr ''Alien''), (''genres'', JStr ''Horror''),
                  (''predictedRating'', JNum 4)]] of
      Inl e \<Rightarrow> False
    | Inr None \<Rightarrow> False
    | Inr (Some l) \<Rightarrow>
        length (cards l) = 2
      \<and> card_rank (cards l ! 0) = 1 \<and> card_title (cards l ! 0) = Some (JStr ''Heat'')
      \<and> card_rank (cards l ! 1) = 2 \<and> card_title (cards l ! 1) = Some (JStr ''Alien''))"
proof -
  let ?recs = "[JObj [(''movieId'', JNum 3), (''title'', JStr ''Heat''), (''genres'', JStr ''Crime''),
                  (''predictedRating'', JNum (21 / 5))],
            JObj [(''movieId'', JNum 9), (''title'', JStr ''Alien''), (''genres'', JStr ''Horror''),
                  (''predictedRating'', JNum 4)]]"
  obtain l where e: "render_recommendations ?recs = Inr (Some l)"
    by (simp add: render_recommendations_def render_card_def get_prop_def Math_round_def enumerate_eq_zip)
  from C5_rank_is_index_plus_one[OF e]
  have a: "length (cards l) = 2"
    and b: "\<forall>k<2. card_rank (cards l ! k) = k + 1
              \<and> card_title (cards l ! k) = own_prop (?recs ! k) ''title''"
    by simp_all
  from b have "card_rank (cards l ! 0) = 1 \<and> card_title (cards l ! 0) = Some (JStr ''Heat'')"
    by force
  moreover from b have "card_rank (cards l ! 1) = 2 \<and> card_title (cards l ! 1) = Some (JStr ''Alien'')"
    by force
  ultimately show ?thesis
    unfolding e using a by simp
qed

section \<open>What a new request resets\<close>




section \<open>What replaces a stored error\<close>

text \<open>
  C7, as the code has it. \<^verbatim>\<open>handlePredict\<close> and \<^verbatim>\<open>handleRecommend\<close> replace the
  stored error: by their validation message when the selection is missing, by
  \<^verbatim>\<open>null\<close> before the request is issued otherwise. The other user actions (choosing a
  tab, a user or a movie, editing the number of recommendations) leave the stored error
  as it is.
\<close>

theorem C7_error_replaced_by_invocations:
  "error (run (fst (handlePredict s)) s)
     = (if selectedUser s = [] \<or> selectedMovie s = []
        then JStr ''Please select both user and movie'' else JNull)
   \<and> error (run (fst (handleRecommend s)) s)
     = (if selectedUser s = [] then JStr ''Please select a user'' else JNull)
   \<and> error (run (onClick_tab name) s) = error s
   \<and> error (run (onChange_user v) s) = error s
   \<and> error (run (onChange_movie v) s) = error s
   \<and> error (run (onChange_topN v) s) = error s"
  by (simp add: handler_defs)

text \<open>
  The validation message stored by a click on the predict button is still stored after
  the user switches to the other tab, and after the user chooses a user and a movie.
\<close>

theorem C7_counterexample:
  "map_option (error \<circ> ui) (steps mounted [ClickPredict])
     = Some (JStr ''Please select both user and movie'')
   \<and> map_option (error \<circ> ui) (steps mounted [ClickPredict, ClickTab ''recommend''])
     = Some (JStr ''Please select both user and movie'')
   \<and> map_option (error \<circ> ui) (steps mounted [ClickPredict, ChangeUser ''1'', ChangeMovie ''10''])
     = Some (JStr ''Please select both user and movie'')"
  by (simp add: eval_defs)

section \<open>A reference list that cannot be fetched\<close>

lemma Settle_fetch_without_list:
  assumes "reachable c" and "step c (Settle k out) = Some c'"
    and "(k = FetchUsers \<and> p = ''userIds'') \<or> (k = FetchMovies \<and> p = ''movies'')"
    and "out = FetchRejected m \<or> out = JsonRejected ok m
       \<or> (out = Parsed ok data
          \<and> (data = JNull \<or> (case own_prop data p of None \<Rightarrow> True | Some v \<Rightarrow> \<not> truthy v)))"
  shows "ui c' = ui c \<and> sent c' = sent c \<and> pending c' = pending c - {#k#}
     \<and> error_message (ui c') = error_message (ui c)
     \<and> (k = FetchUsers \<longrightarrow> users (ui c') = JArr [] \<and> movies (ui c') = movies (ui c))
     \<and> (k = FetchMovies \<longrightarrow> movies (ui c') = JArr [] \<and> users (ui c') = users (ui c))"
proof -
  note s = Settle_Some[OF assms(2)]
  note e = inv_Fetch_pending[OF assms(1)]
  have u: "ui c' = ui c"
  proof (cases "k = FetchUsers")
    case True
    with assms(3) have p: "p = ''userIds''" by auto
    from True s(1) e(1) have "(ui c)\<lparr>users := JArr []\<rparr> = ui c" by simp
    with assms(4) s(2) True p show ?thesis
      by (auto simp add: fetchUsers_resume_def run_def get_prop_def split: option.splits)
  next
    case False
    with assms(3) have k: "k = FetchMovies" and p: "p = ''movies''" by auto
    from k s(1) e(2) have "(ui c)\<lparr>movies := JArr []\<rparr> = ui c" by simp
    with assms(4) s(2) k p show ?thesis
      by (auto simp add: fetchMovies_resume_def run_def get_prop_def split: option.splits)
  qed
  from u s e show ?thesis by auto
qed

lemma Settle_fetch_with_list:
  assumes "step c (Settle k (Parsed ok data)) = Some c'"
    and "(k = FetchUsers \<and> p = ''userIds'') \<or> (k = FetchMovies \<and> p = ''movies'')"
    and "data \<noteq> JNull" and "own_prop data p = Some v" and "truthy v"
  shows "sent c' = sent c \<and> pending c' = pending c - {#k#}
     \<and> (k = FetchUsers \<longrightarrow> ui c' = (ui c)\<lparr>users := v\<rparr>)
     \<and> (k = FetchMovies \<longrightarrow> ui c' = (ui c)\<lparr>movies := v\<rparr>)"
proof -
  note s = Settle_Some[OF assms(1)]
  from assms(2) show ?thesis
  proof
    assume "k = FetchUsers \<and> p = ''userIds''"
    with s assms(3,4,5) show ?thesis
      by (simp add: fetchUsers_resume_def run_def get_prop_def)
  next
    assume "k = FetchMovies \<and> p = ''movies''"
    with s assms(3,4,5) show ?thesis
      by (simp add: fetchMovies_resume_def run_def get_prop_def)
  qed
qed

text \<open>
  C8, as the code has it. \<^verbatim>\<open>fetchUsers\<close> and \<^verbatim>\<open>fetchMovies\<close> never read
  \<^verbatim>\<open>response.ok\<close>; what they store depends on the body alone.
  \<^item> When \<^verbatim>\<open>fetch\<close> rejects, the body does not parse, the body is \<^verbatim>\<open>null\<close>, or
    the body has no truthy value under the list's name, the state of the component is
    what it was: the list concerned is still the empty array, the other list and the
    error field are unchanged, nothing is displayed as an error that was not before, no
    request is sent again, and the other reference request stays in flight.
  \<^item> When the body has a truthy value under the list's name, that value becomes the
    list, whether the response is ok or not and whether the value is an array or not;
    no other field changes.
\<close>

theorem C8_reference_fetch_outcome:
  assumes "reachable c" and "step c (Settle k out) = Some c'"
    and "(k = FetchUsers \<and> p = ''userIds'') \<or> (k = FetchMovies \<and> p = ''movies'')"
  shows "((out = FetchRejected m \<or> out = JsonRejected ok m
          \<or> (out = Parsed ok data
             \<and> (data = JNull \<or> (case own_prop data p of None \<Rightarrow> True | Some v \<Rightarrow> \<not> truthy v))))
        \<longrightarrow> ui c' = ui c \<and> sent c' = sent c \<and> pending c' = pending c - {#k#}
          \<and> error_message (ui c') = error_message (ui c)
          \<and> (k = FetchUsers \<longrightarrow> users (ui c') = JArr [] \<and> movies (ui c') = movies (ui c))
          \<and> (k = FetchMovies \<longrightarrow> movies (ui c') = JArr [] \<and> users (ui c') = users (ui c)))
     \<and> (\<forall>v. out = Parsed ok data \<and> data \<noteq> JNull \<and> own_prop data p = Some v \<and> truthy v
        \<longrightarrow> sent c' = sent c \<and> pending c' = pending c - {#k#}
          \<and> (k = FetchUsers \<longrightarrow> ui c' = (ui c)\<lparr>users := v\<rparr>)
          \<and> (k = FetchMovies \<longrightarrow> ui c' = (ui c)\<lparr>movies := v\<rparr>))"
proof -
  have a: "ui c' = ui c \<and> sent c' = sent c \<and> pending c' = pending c - {#k#}
          \<and> error_message (ui c') = error_message (ui c)
          \<and> (k = FetchUsers \<longrightarrow> users (ui c') = JArr [] \<and> movies (ui c') = movies (ui c))
          \<and> (k = FetchMovies \<longrightarrow> movies (ui c') = JArr [] \<and> users (ui c') = users (ui c))"
    if "out = FetchRejected m \<or> out = JsonRejected ok m
          \<or> (out = Parsed ok data
             \<and> (data = JNull \<or> (case own_prop data p of None \<Rightarrow> True | Some v \<Rightarrow> \<not> truthy v)))"
    using Settle_fetch_without_list[OF assms that] .
  have b: "sent c' = sent c \<and> pending c' = pending c - {#k#}
          \<and> (k = FetchUsers \<longrightarrow> ui c' = (ui c)\<lparr>users := v\<rparr>)
          \<and> (k = FetchMovies \<longrightarrow> ui c' = (ui c)\<lparr>movies := v\<rparr>)"
    if h: "out = Parsed ok data \<and> data \<noteq> JNull \<and> own_prop data p = Some v \<and> truthy v" for v
  proof -
    from h assms(2) have "step c (Settle k (Parsed ok data)) = Some c'" by simp
    from Settle_fetch_with_list[OF this assms(3)] h show ?thesis by blast
  qed
  from a b show ?thesis by blast
qed

theorem C8_reference_fetch_outcome_witness:
  "reachable mounted
   \<and> (case step mounted (Settle FetchUsers (FetchRejected ''Failed to fetch'')) of
         None \<Rightarrow> False
       | Some c' \<Rightarrow> ui c' = ui mounted \<and> users (ui c') = JArr [] \<and> pending c' = {#FetchMovies#})
   \<and> (case step mounted (Settle FetchMovies (Parsed False (JObj [(''error'', JStr ''no data'')]))) of
         None \<Rightarrow> False
       | Some c' \<Rightarrow> ui c' = ui mounted \<and> movies (ui c') = JArr [] \<and> pending c' = {#FetchUsers#})
   \<and> (case step mounted (Settle FetchUsers (Parsed True (JObj [(''userIds'', JArr [JNum 1, JNum 2])]))) of
         None \<Rightarrow> False
       | Some c' \<Rightarrow> ui c' = (ui mounted)\<lparr>users := JArr [JNum 1, JNum 2]\<rparr>
                    \<and> pending c' = {#FetchMovies#})"
proof -
  let ?o1 = "FetchRejected ''Failed to fetch''"
  let ?d2 = "JObj [(''error'', JStr ''no data'')]"
  let ?d3 = "JObj [(''userIds'', JArr [JNum 1, JNum 2])]"
  obtain c1 where s1: "step mounted (Settle FetchUsers ?o1) = Some c1"
    by (simp add: mounted_def)
  obtain c2 where s2: "step mounted (Settle FetchMovies (Parsed False ?d2)) = Some c2"
    by (simp add: mounted_def)
  obtain c3 where s3: "step mounted (Settle FetchUsers (Parsed True ?d3)) = Some c3"
    by (simp add: mounted_def)
  have k1: "(FetchUsers = FetchUsers \<and> ''userIds'' = ''userIds'') \<or> (FetchUsers = FetchMovies \<and> ''userIds'' = ''movies'')"
    by simp
  have k2: "(FetchMovies = FetchUsers \<and> ''movies'' = ''userIds'') \<or> (FetchMovies = FetchMovies \<and> ''movies'' = ''movies'')"
    by simp
  from C8_reference_fetch_outcome[OF reachable.start s1 k1, of "''Failed to fetch''" False JNull]
  have t1: "ui c1 = ui mounted \<and> users (ui c1) = JArr [] \<and> pending c1 = {#FetchMovies#}"
    by (simp add: mounted_def App_init_def)
  from C8_reference_fetch_outcome[OF reachable.start s2 k2, of "[]" False ?d2]
  have t2: "ui c2 = ui mounted \<and> movies (ui c2) = JArr [] \<and> pending c2 = {#FetchUsers#}"
    by (simp add: mounted_def App_init_def)
  from C8_reference_fetch_outcome[OF reachable.start s3 k1, of "[]" True ?d3]
  have t3: "ui c3 = (ui mounted)\<lparr>users := JArr [JNum 1, JNum 2]\<rparr> \<and> pending c3 = {#FetchMovies#}"
    by (simp add: mounted_def)
  show ?thesis
    unfolding s1 s2 s3 option.case using reachable.start t1 t2 t3 by blast
qed

text \<open>
  A response that is not ok and whose body carries a list stores that list, so the
  collection is not left empty; when the value under the list's name is a string, the
  field is no longer an array and the user select cannot be rendered.
\<close>

theorem C8_counterexample:
  "map_option (users \<circ> ui)
     (step mounted (Settle FetchUsers (Parsed False
        (JObj [(''error'', JStr ''overloaded''), (''userIds'', JArr [JNum 1, JNum 2])]))))
     = Some (JArr [JNum 1, JNum 2])
   \<and> JArr [JNum 1, JNum 2] \<noteq> JArr []
   \<and> map_option (users \<circ> ui)
     (step mounted (Settle FetchUsers (Parsed False (JObj [(''userIds'', JStr ''abc'')]))))
     = Some (JStr ''abc'')
   \<and> user_options (JStr ''abc'') = Inl TypeError"
  by (simp add: eval_defs)

section \<open>The loading flag\<close>

text \<open>
  C9. In every reachable state the loading flag is set exactly when a predict or recommend
  request is in flight, and at most one such request is in flight. Both buttons are
  disabled exactly when the flag is set, so neither handler can start while it is set.
  When the request in flight settles, with whatever outcome, the flag is cleared and no
  predict or recommend request remains in flight.
\<close>

theorem C9_loading_flag:
  assumes "reachable c"
  shows "(loading (ui c) \<longleftrightarrow> Predict \<in># pending c \<or> Recommend \<in># pending c)
     \<and> count (pending c) Predict + count (pending c) Recommend \<le> 1
     \<and> btn_disabled (predict_button (ui c)) = loading (ui c)
     \<and> btn_disabled (recommend_button (ui c)) = loading (ui c)
     \<and> (loading (ui c) \<longrightarrow> step c ClickPredict = None \<and> step c ClickRecommend = None)
     \<and> (\<forall>k out c'. (k = Predict \<or> k = Recommend) \<longrightarrow> step c (Settle k out) = Some c' \<longrightarrow>
           \<not> loading (ui c') \<and> Predict \<notin># pending c' \<and> Recommend \<notin># pending c')"
proof -
  have i: "inv c" using assms by (rule reachable_inv)
  then have cnt: "count (pending c) Predict + count (pending c) Recommend = (if loading (ui c) then 1 else 0)"
    unfolding inv_def by blast
  have a: "loading (ui c) \<longleftrightarrow> Predict \<in># pending c \<or> Recommend \<in># pending c"
    using cnt unfolding count_greater_zero_iff[symmetric]
    by (auto simp del: count_iffs split: if_splits)
  have b: "count (pending c) Predict + count (pending c) Recommend \<le> 1"
    using cnt by (simp split: if_splits)
  have d: "btn_disabled (predict_button (ui c)) = loading (ui c)"
     "btn_disabled (recommend_button (ui c)) = loading (ui c)"
    by (simp_all add: predict_button_def recommend_button_def)
  have e: "loading (ui c) \<longrightarrow> step c ClickPredict = None \<and> step c ClickRecommend = None"
    by (simp add: d)
  have f: "\<not> loading (ui c') \<and> Predict \<notin># pending c' \<and> Recommend \<notin># pending c'"
    if k: "k = Predict \<or> k = Recommend" and st: "step c (Settle k out) = Some c'" for k out c'
  proof -
    have i': "inv c'" using i st by (rule inv_step)
    have "\<not> loading (ui c')"
      using st k run_handlePredict_resume[of out "ui c"] run_handleRecommend_resume[of out "ui c"]
      by (auto split: if_splits)
    with i' show ?thesis
      unfolding inv_def count_eq_zero_iff[symmetric] by (simp del: count_iffs)
  qed
  from a b d e f show ?thesis by blast
qed

theorem C9_loading_flag_witness:
  "(case steps mounted [ChangeUser ''1'', ChangeMovie ''10'', ClickPredict] of
      None \<Rightarrow> False
    | Some c \<Rightarrow>
        reachable c \<and> loading (ui c) \<and> Predict \<in># pending c
      \<and> count (pending c) Predict + count (pending c) Recommend \<le> 1
      \<and> btn_disabled (predict_button (ui c))
      \<and> step c ClickPredict = None
      \<and> (case step c (Settle Predict (FetchRejected ''Failed to fetch'')) of
            None \<Rightarrow> False
          | Some c' \<Rightarrow> \<not> loading (ui c') \<and> Predict \<notin># pending c'))"
proof -
  obtain c where s: "steps mounted [ChangeUser ''1'', ChangeMovie ''10'', ClickPredict] = Some c"
    by (simp add: eval_defs)
  have r: "reachable c"
    using reachable.start s by (rule steps_reachable)
  have l: "loading (ui c)" and p: "Predict \<in># pending c"
    using s by (auto simp add: eval_defs)
  obtain c' where s': "step c (Settle Predict (FetchRejected ''Failed to fetch'')) = Some c'"
    using p by simp
  note t = C9_loading_flag[OF r]
  from t have 1: "count (pending c) Predict + count (pending c) Recommend \<le> 1" by blast
  from t l have 2: "btn_disabled (predict_button (ui c))" by blast
  from t l have 3: "step c ClickPredict = None" by blast
  from t s' have 4: "\<not> loading (ui c') \<and> Predict \<notin># pending c'" by blast
  show ?thesis
    unfolding s option.case s' using r l p 1 2 3 4 by blast
qed

section \<open>The options of the selects\<close>



end
